theory Spec2Isabelle
  imports Complex_Main
begin

section \<open>Dashboard.tsx: the bounded histories\<close>

text \<open>
  The interfaces \<^verbatim>\<open>DataPoint\<close> and \<^verbatim>\<open>Site\<close> of Dashboard.tsx. A JavaScript number is
  a rational here: \<^verbatim>\<open>Date.now()\<close> yields whole milliseconds, \<^verbatim>\<open>Math.random()\<close> a
  fraction, and the code only compares ids with \<^verbatim>\<open>===\<close>. The field \<^verbatim>\<open>id\<close> is written
  \<open>id'\<close>, since \<open>id\<close> is the identity function of HOL.
\<close>

record DataPoint =
  siteId :: string
  siteName :: string
  pageViews :: rat
  timestamp :: int
  id' :: rat

record Site =
  siteId :: string
  siteName :: string
  data :: "DataPoint list"

text \<open>The two pieces of React state the message handler writes.\<close>

record Dashboard =
  data :: "DataPoint list"
  sites :: "Site list"

definition MAX_POINTS :: nat where
  "MAX_POINTS = 200"

text \<open>
  \<^verbatim>\<open>xs.slice(-n)\<close>: the last \<open>n\<close> elements, all of them when there are fewer;
  \<^verbatim>\<open>slice(-0)\<close> is \<^verbatim>\<open>slice(0)\<close>, the whole array.
\<close>

definition slice_neg :: "nat \<Rightarrow> 'a list \<Rightarrow> 'a list" where
  "slice_neg n xs = (if n = 0 then xs else drop (length xs - n) xs)"

text \<open>
  \<^verbatim>\<open>xs[xs.length-1]?.id\<close>: \<^verbatim>\<open>undefined\<close> (here \<open>None\<close>) on the empty array.
\<close>

definition last_id :: "DataPoint list \<Rightarrow> rat option" where
  "last_id xs = (if xs = [] then None else Some (id' (last xs)))"

text \<open>\<^verbatim>\<open>Array.prototype.findIndex\<close>; \<open>None\<close> stands for the result \<^verbatim>\<open>-1\<close>.\<close>

fun findIndex :: "('a \<Rightarrow> bool) \<Rightarrow> 'a list \<Rightarrow> nat option" where
  "findIndex P [] = None"
| "findIndex P (x # xs) = (if P x then Some 0 else map_option Suc (findIndex P xs))"

text \<open>The updater passed to \<^verbatim>\<open>setData\<close> (Dashboard.tsx, lines 92 to 98).\<close>

definition setData_updater :: "DataPoint \<Rightarrow> DataPoint list \<Rightarrow> DataPoint list" where
  "setData_updater enrichedData prev =
     (let newDataArray = slice_neg MAX_POINTS prev @ [enrichedData]
      in if length prev = length newDataArray \<and> last_id prev = last_id newDataArray
         then prev
         else newDataArray)"

text \<open>The updater passed to \<^verbatim>\<open>setSites\<close> (Dashboard.tsx, lines 100 to 127).\<close>

definition setSites_updater :: "DataPoint \<Rightarrow> Site list \<Rightarrow> Site list" where
  "setSites_updater enrichedData prev =
     (case findIndex (\<lambda>s. Site.siteId s = DataPoint.siteId enrichedData) prev of
        None \<Rightarrow>
          prev @ [\<lparr>Site.siteId = DataPoint.siteId enrichedData,
                   siteName = DataPoint.siteName enrichedData,
                   data = [enrichedData]\<rparr>]
      | Some index \<Rightarrow>
          (let updatedSite =
                 (prev ! index)\<lparr>Site.data :=
                    slice_neg MAX_POINTS (Site.data (prev ! index)) @ [enrichedData]\<rparr>
           in if length (Site.data (prev ! index)) = length (Site.data updatedSite) \<and>
                 last_id (Site.data (prev ! index)) = last_id (Site.data updatedSite)
              then prev
              else prev[index := updatedSite]))"

text \<open>
  \<^verbatim>\<open>JSON.parse\<close> belongs to the platform and is a parameter of the handlers: \<open>None\<close> when
  it throws \<^verbatim>\<open>SyntaxError\<close>. Of the parsed value the code reads the field \<^verbatim>\<open>type\<close>
  (usePerformanceMonitor.ts; \<open>None\<close> when the object has none) and the fields of a data
  point, at the type the cast in Dashboard.tsx gives them; \<open>point\<close> carries whatever
  timestamp and id came over the wire.
\<close>

datatype error = SyntaxError

datatype json = JSON (type_field: "string option") (point: DataPoint)

text \<open>
  \<^verbatim>\<open>{...newData, timestamp: Date.now(), id: Math.random()}\<close>, with the two readings
  passed in.
\<close>

definition enrich :: "json \<Rightarrow> int \<Rightarrow> rat \<Rightarrow> DataPoint" where
  "enrich newData now random = (point newData)\<lparr>timestamp := now, id' := random\<rparr>"

text \<open>
  \<^verbatim>\<open>wsRef.current.onmessage\<close> (lines 83 to 128). \<^verbatim>\<open>JSON.parse\<close> is not guarded, so its
  exception leaves the handler: \<open>Inl\<close>.
\<close>

definition onmessage ::
  "(string \<Rightarrow> json option) \<Rightarrow> int \<Rightarrow> rat \<Rightarrow> string \<Rightarrow> Dashboard \<Rightarrow> error + Dashboard" where
  "onmessage JSON_parse now random event_data st =
     (case JSON_parse event_data of
        None \<Rightarrow> Inl SyntaxError
      | Some newData \<Rightarrow>
          (let enrichedData = enrich newData now random
           in Inr (st\<lparr>Dashboard.data := setData_updater enrichedData (Dashboard.data st),
                      sites := setSites_updater enrichedData (sites st)\<rparr>)))"

text \<open>
  One message event as the handler sees it: the payload and the readings of
  \<^verbatim>\<open>Date.now()\<close> and \<^verbatim>\<open>Math.random()\<close> taken while handling it.
\<close>

record arrival =
  event_data :: string
  now :: int
  random :: rat

text \<open>
  The component starts from \<^verbatim>\<open>useState([])\<close> twice. An exception thrown by the handler
  reaches the event loop before any state setter ran, so the state is as it was when the
  next message event is dispatched.
\<close>

definition initial :: Dashboard where
  "initial = \<lparr>data = [], sites = []\<rparr>"

fun deliver :: "(string \<Rightarrow> json option) \<Rightarrow> arrival list \<Rightarrow> Dashboard \<Rightarrow> Dashboard" where
  "deliver JSON_parse [] st = st"
| "deliver JSON_parse (a # as) st =
     deliver JSON_parse as
       (case onmessage JSON_parse (now a) (random a) (event_data a) st of
          Inl e \<Rightarrow> st
        | Inr st' \<Rightarrow> st')"

text \<open>\<^verbatim>\<open>sites.find((s) => s.siteId === selectedSiteId)\<close> and the series it shows.\<close>

definition selectedSite :: "Site list \<Rightarrow> string \<Rightarrow> Site option" where
  "selectedSite ss selectedSiteId = find (\<lambda>s. Site.siteId s = selectedSiteId) ss"

definition window :: "Site list \<Rightarrow> string \<Rightarrow> DataPoint list" where
  "window ss selectedSiteId =
     (case selectedSite ss selectedSiteId of None \<Rightarrow> [] | Some s \<Rightarrow> Site.data s)"

text \<open>
  The messages that parse, enriched as the handler enriches them: what a sequence of
  arrivals hands to the two updaters.
\<close>

fun enriched :: "(string \<Rightarrow> json option) \<Rightarrow> arrival list \<Rightarrow> DataPoint list" where
  "enriched JSON_parse [] = []"
| "enriched JSON_parse (a # as) =
     (case JSON_parse (event_data a) of
        None \<Rightarrow> enriched JSON_parse as
      | Some newData \<Rightarrow> enrich newData (now a) (random a) # enriched JSON_parse as)"

text \<open>
  A stand-in for \<^verbatim>\<open>JSON.parse\<close> where a closed example needs one: it reads the pong
  message and one metric message, and fails on every other payload. The arrivals
  \<open>feed i j\<close> are that metric message delivered at the seconds \<open>i\<close> to \<open>j - 1\<close>, with
  pairwise different readings of \<^verbatim>\<open>Math.random()\<close>.
\<close>

definition pong_payload :: string where
  \<open>pong_payload = ''{"type":"pong"}''\<close>

definition metric_payload :: string where
  \<open>metric_payload = ''{"siteId":"site-1","siteName":"Site 1","pageViews":10}''\<close>

definition example_point :: DataPoint where
  "example_point =
     \<lparr>DataPoint.siteId = ''site-1'', siteName = ''Site 1'', pageViews = 10,
      timestamp = 0, id' = 0\<rparr>"

definition example_parse :: "string \<Rightarrow> json option" where
  "example_parse s =
     (if s = pong_payload
      then Some (JSON (Some ''pong'')
             \<lparr>DataPoint.siteId = [], siteName = [], pageViews = 0, timestamp = 0, id' = 0\<rparr>)
      else if s = metric_payload then Some (JSON None example_point)
      else None)"

definition feed :: "nat \<Rightarrow> nat \<Rightarrow> arrival list" where
  "feed i j =
     map (\<lambda>k. \<lparr>event_data = metric_payload, now = 1000 * int k, random = of_nat k / 1000\<rparr>)
       [i..<j]"

definition bounded :: "Dashboard \<Rightarrow> bool" where
  "bounded st \<longleftrightarrow>
     length (Dashboard.data st) \<le> 201 \<and> (\<forall>s \<in> set (sites st). length (Site.data s) \<le> 201)"

section \<open>useWebSocket.ts\<close>

text \<open>
  \<^verbatim>\<open>ws.onmessage\<close> of the hook (lines 10 to 14): \<^verbatim>\<open>JSON.parse\<close> is not guarded here
  either, and the updater is \<^verbatim>\<open>[...prev.slice(-999), point]\<close>.
\<close>

definition useWebSocket_onmessage ::
  "(string \<Rightarrow> json option) \<Rightarrow> string \<Rightarrow> DataPoint list \<Rightarrow> error + DataPoint list" where
  "useWebSocket_onmessage JSON_parse payload prev =
     (case JSON_parse payload of
        None \<Rightarrow> Inl SyntaxError
      | Some p \<Rightarrow> Inr (slice_neg 999 prev @ [point p]))"

section \<open>usePerformanceMonitor.ts: the telemetry state\<close>

record PerformanceStats =
  fps :: int
  memoryUsedMB :: int
  memoryTotalMB :: int
  latencyMs :: int
  alerts :: "string list"

text \<open>
  The three alert texts. Each starts with a sign outside ASCII, given here by its UTF-8
  bytes; \<^verbatim>\<open>includes\<close> is only asked for the ASCII words \<^verbatim>\<open>Memory\<close> and \<^verbatim>\<open>Latency\<close>,
  which no encoding of the signs contains.
\<close>

definition warning_sign :: string where
  "warning_sign = [CHR 0xE2, CHR 0x9A, CHR 0xA0, CHR 0xEF, CHR 0xB8, CHR 0x8F]"

definition siren_sign :: string where
  "siren_sign = [CHR 0xF0, CHR 0x9F, CHR 0x9A, CHR 0xA8]"

definition Low_FPS :: string where
  "Low_FPS = warning_sign @ '' Low FPS''"

definition High_Memory_Usage :: string where
  "High_Memory_Usage = siren_sign @ '' High Memory Usage''"

definition High_WebSocket_Latency :: string where
  "High_WebSocket_Latency = warning_sign @ '' High WebSocket Latency''"

text \<open>\<^verbatim>\<open>String.prototype.includes\<close>: \<open>sub\<close> occurs somewhere in \<open>s\<close>.\<close>

fun string_includes :: "string \<Rightarrow> string \<Rightarrow> bool" where
  "string_includes [] sub = (sub = [])"
| "string_includes (c # cs) sub = (take (length sub) (c # cs) = sub \<or> string_includes cs sub)"

text \<open>\<^verbatim>\<open>Math.round\<close>: the nearest integer, a half going up.\<close>

definition Math_round :: "rat \<Rightarrow> int" where
  "Math_round x = \<lfloor>x + 1 / 2\<rfloor>"

text \<open>
  The state of the hook: the React state \<^verbatim>\<open>stats\<close>, the refs \<^verbatim>\<open>lastFrame\<close>,
  \<^verbatim>\<open>frameCount\<close> and \<^verbatim>\<open>latencyStart\<close> (\<open>None\<close> is \<^verbatim>\<open>null\<close>), and the two output
  channels the hook writes: the payloads given to \<^verbatim>\<open>ws.send\<close> and the payloads reported
  by \<^verbatim>\<open>console.error\<close>. The \<^verbatim>\<open>console.log\<close> lines are not recorded.
\<close>

record monitor =
  stats :: PerformanceStats
  lastFrame :: rat
  frameCount :: int
  latencyStart :: "int option"
  sent :: "string list"
  console_error :: "string list"

definition initial_stats :: PerformanceStats where
  "initial_stats = \<lparr>fps = 0, memoryUsedMB = 0, memoryTotalMB = 0, latencyMs = 0, alerts = []\<rparr>"

text \<open>\<open>t0\<close> is the reading of \<^verbatim>\<open>performance.now()\<close> when the hook is first rendered.\<close>

definition initial_monitor :: "rat \<Rightarrow> monitor" where
  "initial_monitor t0 =
     \<lparr>stats = initial_stats, lastFrame = t0, frameCount = 0, latencyStart = None,
      sent = [], console_error = []\<rparr>"

text \<open>The updater of the frame tracker (lines 37 to 41).\<close>

definition fps_updater :: "int \<Rightarrow> PerformanceStats \<Rightarrow> PerformanceStats" where
  "fps_updater n prev = prev\<lparr>fps := n, alerts := (if n < 30 then [Low_FPS] else [])\<rparr>"

text \<open>
  The animation-frame callback \<^verbatim>\<open>loop\<close> (lines 30 to 44). The readings of
  \<^verbatim>\<open>performance.now()\<close> are subtracted exactly, where the source subtracts doubles.
\<close>

definition loop :: "rat \<Rightarrow> monitor \<Rightarrow> monitor" where
  "loop t m =
     (let m1 = m\<lparr>frameCount := frameCount m + 1\<rparr>
      in if t - lastFrame m1 \<ge> 1000
         then m1\<lparr>frameCount := 0, lastFrame := t, stats := fps_updater (frameCount m1) (stats m1)\<rparr>
         else m1)"

text \<open>The updater of the memory tracker (lines 58 to 66).\<close>

definition memory_updater :: "rat \<Rightarrow> rat \<Rightarrow> PerformanceStats \<Rightarrow> PerformanceStats" where
  "memory_updater used total' prev =
     prev\<lparr>memoryUsedMB := Math_round used,
          memoryTotalMB := Math_round total',
          alerts := filter (\<lambda>a. \<not> string_includes a ''Memory'') (alerts prev) @
                    (if used > 400 then [High_Memory_Usage] else [])\<rparr>"

text \<open>
  \<^verbatim>\<open>window.performance.memory\<close>, where the host has it, with its byte counts; dividing a
  byte count by \<open>2^20\<close> is exact in the code's arithmetic as it is here.
\<close>

record memory =
  usedJSHeapSize :: nat
  totalJSHeapSize :: nat

text \<open>The interval callback of the memory tracker (lines 52 to 68).\<close>

definition memory_tick :: "memory option \<Rightarrow> monitor \<Rightarrow> monitor" where
  "memory_tick mem m =
     (case mem of
        None \<Rightarrow> m
      | Some mi \<Rightarrow>
          (let used = of_nat (usedJSHeapSize mi) / 1048576;
               total' = of_nat (totalJSHeapSize mi) / 1048576
           in m\<lparr>stats := memory_updater used total' (stats m)\<rparr>))"

datatype readyState = CONNECTING | OPEN | CLOSING | CLOSED

text \<open>The interval callback that pings (lines 78 to 84).\<close>

definition ping :: "readyState \<Rightarrow> int \<Rightarrow> monitor \<Rightarrow> monitor" where
  \<open>ping rs t m =
     (if rs = OPEN
      then m\<lparr>latencyStart := Some t, sent := sent m @ [''{"type":"ping"}'']\<rparr>
      else m)\<close>

text \<open>
  A value of type \<^verbatim>\<open>number | null\<close> used as a condition: \<^verbatim>\<open>null\<close> counts as false,
  and so does the number \<open>0\<close>.
\<close>

definition truthy :: "int option \<Rightarrow> bool" where
  "truthy v = (case v of None \<Rightarrow> False | Some n \<Rightarrow> n \<noteq> 0)"

text \<open>\<^verbatim>\<open>null\<close> in a subtraction counts as \<open>0\<close>.\<close>

definition to_number :: "int option \<Rightarrow> int" where
  "to_number v = (case v of None \<Rightarrow> 0 | Some n \<Rightarrow> n)"

text \<open>The updater of the latency prober (lines 107 to 114).\<close>

definition latency_updater :: "int \<Rightarrow> PerformanceStats \<Rightarrow> PerformanceStats" where
  "latency_updater latency prev =
     prev\<lparr>latencyMs := latency,
          alerts := filter (\<lambda>a. \<not> string_includes a ''Latency'') (alerts prev) @
                    (if latency > 200 then [High_WebSocket_Latency] else [])\<rparr>"

text \<open>
  The message listener \<^verbatim>\<open>onMessage\<close> (lines 101 to 120); \<open>t\<close> is the reading of
  \<^verbatim>\<open>Date.now()\<close>. The exception of \<^verbatim>\<open>JSON.parse\<close> is caught and reported. A parsed
  value is an object here; the payload \<^verbatim>\<open>null\<close>, on which reading \<^verbatim>\<open>data.type\<close> throws
  inside the same \<^verbatim>\<open>try\<close>, is not among the values of \<open>json\<close>.
\<close>

definition onMessage :: "(string \<Rightarrow> json option) \<Rightarrow> int \<Rightarrow> string \<Rightarrow> monitor \<Rightarrow> monitor" where
  "onMessage JSON_parse t e_data m =
     (case JSON_parse e_data of
        None \<Rightarrow> m\<lparr>console_error := console_error m @ [e_data]\<rparr>
      | Some d \<Rightarrow>
          if type_field d = Some ''pong'' \<and> truthy (latencyStart m)
          then (let latency = t - to_number (latencyStart m)
                in m\<lparr>stats := latency_updater latency (stats m), latencyStart := None\<rparr>)
          else m)"

section \<open>Dashboard.tsx: the connection\<close>

text \<open>
  The part of the effect that connects (lines 79 to 152). Sockets are numbered in the
  order \<^verbatim>\<open>new WebSocket\<close> makes them; \<open>wsRef\<close> is \<^verbatim>\<open>wsRef.current\<close>; \<open>timeouts\<close> holds the
  delay of every \<^verbatim>\<open>setTimeout(connectWebSocket, ...)\<close> still pending, oldest first;
  \<open>closed\<close> lists the sockets \<^verbatim>\<open>close()\<close> was called on.
\<close>

record connection =
  wsRef :: "nat option"
  sockets :: nat
  timeouts :: "nat list"
  closed :: "nat list"

definition connectWebSocket :: "connection \<Rightarrow> connection" where
  "connectWebSocket c = c\<lparr>wsRef := Some (sockets c), sockets := sockets c + 1\<rparr>"

text \<open>\<^verbatim>\<open>wsRef.current.onerror\<close> (lines 130 to 132), the same for every socket.\<close>

definition onerror :: "connection \<Rightarrow> connection" where
  "onerror c = c\<lparr>timeouts := timeouts c @ [3000]\<rparr>"

text \<open>
  The effect's cleanup (lines 148 to 151): \<^verbatim>\<open>wsRef.current?.close()\<close>. The interval
  that logs memory usage writes to the console only; it and its \<^verbatim>\<open>clearInterval\<close> are
  left out.
\<close>

definition cleanup :: "connection \<Rightarrow> connection" where
  "cleanup c = (case wsRef c of None \<Rightarrow> c | Some w \<Rightarrow> c\<lparr>closed := closed c @ [w]\<rparr>)"

text \<open>The effect body on mount: no socket yet, then \<^verbatim>\<open>connectWebSocket()\<close>.\<close>

definition mount :: connection where
  "mount = connectWebSocket \<lparr>wsRef = None, sockets = 0, timeouts = [], closed = []\<rparr>"

text \<open>
  What the event loop can hand to this code: an error event or a close event of a
  socket, the oldest pending timeout falling due, and the unmount of the component. No
  handler is installed for close events, and a timeout can only fall due while one is
  pending.
\<close>

datatype event = Error | Close | Timeout | Unmount

fun step :: "event \<Rightarrow> connection \<Rightarrow> connection" where
  "step Error c = onerror c"
| "step Close c = c"
| "step Timeout c =
     (case timeouts c of [] \<Rightarrow> c | d # ds \<Rightarrow> connectWebSocket (c\<lparr>timeouts := ds\<rparr>))"
| "step Unmount c = cleanup c"

definition run :: "event list \<Rightarrow> connection \<Rightarrow> connection" where
  "run es c = fold step es c"

section \<open>Properties of the histories\<close>

lemma length_slice_neg: "length (slice_neg n xs) \<le> length xs"
  by (simp add: slice_neg_def)

lemma length_slice_neg_MAX: "length (slice_neg MAX_POINTS xs) = min (length xs) 200"
  by (simp add: slice_neg_def MAX_POINTS_def)

lemma findIndex_Some: "findIndex P xs = Some i \<Longrightarrow> i < length xs \<and> P (xs ! i)"
  by (induction xs arbitrary: i) (auto split: if_splits)

lemma findIndex_None: "findIndex P xs = None \<longleftrightarrow> (\<forall>x \<in> set xs. \<not> P x)"
  by (induction xs) auto

lemma length_setData_updater:
  "length prev \<le> 201 \<Longrightarrow> length (setData_updater e prev) \<le> 201"
  by (simp add: setData_updater_def Let_def length_slice_neg_MAX)

lemma setSites_updater_bound:
  assumes "\<forall>s \<in> set prev. length (Site.data s) \<le> 201"
  shows "\<forall>s \<in> set (setSites_updater e prev). length (Site.data s) \<le> 201"
proof (cases "findIndex (\<lambda>s. Site.siteId s = DataPoint.siteId e) prev")
  case None
  with assms show ?thesis by (simp add: setSites_updater_def)
next
  case (Some i)
  have "length (Site.data s) \<le> 201"
    if "s \<in> set (prev[i := (prev ! i)\<lparr>Site.data :=
              slice_neg MAX_POINTS (Site.data (prev ! i)) @ [e]\<rparr>])" for s
  proof -
    from that have "s = (prev ! i)\<lparr>Site.data :=
        slice_neg MAX_POINTS (Site.data (prev ! i)) @ [e]\<rparr> \<or> s \<in> set prev"
      using set_update_subset_insert by fastforce
    then show ?thesis
      using assms by (auto simp: length_slice_neg_MAX)
  qed
  with Some assms show ?thesis
    by (simp add: setSites_updater_def Let_def)
qed

lemma onmessage_bounded:
  "bounded st \<Longrightarrow> onmessage JSON_parse t r d st = Inr st' \<Longrightarrow> bounded st'"
  unfolding onmessage_def bounded_def
  using setSites_updater_bound length_setData_updater
  by (auto simp: Let_def split: option.splits)

lemma deliver_bounded: "bounded st \<Longrightarrow> bounded (deliver JSON_parse as st)"
proof (induction as arbitrary: st)
  case Nil
  then show ?case by simp
next
  case (Cons a as)
  show ?case
  proof (cases "onmessage JSON_parse (now a) (random a) (event_data a) st")
    case (Inl e)
    with Cons show ?thesis by simp
  next
    case (Inr st')
    from Cons.prems Inr have "bounded st'" by (rule onmessage_bounded)
    with Inr Cons.IH show ?thesis by simp
  qed
qed

lemma slice_neg_snoc:
  "slice_neg MAX_POINTS (slice_neg (Suc MAX_POINTS) es) @ [e] = slice_neg (Suc MAX_POINTS) (es @ [e])"
proof (cases "length es \<le> 200")
  case True
  then show ?thesis by (simp add: slice_neg_def MAX_POINTS_def)
next
  case False
  then have "length es - (length es - 201 + 200) + (length es - 201) = length es - 200"
    by arith
  with False show ?thesis by (simp add: slice_neg_def MAX_POINTS_def)
qed

lemma last_slice_neg: "es \<noteq> [] \<Longrightarrow> last (slice_neg (Suc n) es) = last es"
  by (simp add: slice_neg_def)

lemma slice_neg_Nil_iff: "slice_neg (Suc n) es = [] \<longleftrightarrow> es = []"
  by (cases es) (auto simp: slice_neg_def)

lemma last_id_fresh:
  assumes "id' e \<notin> id' ` set es"
  shows "last_id (slice_neg (Suc MAX_POINTS) es) \<noteq> Some (id' e)"
proof (cases "es = []")
  case True
  then show ?thesis by (simp add: last_id_def slice_neg_def)
next
  case False
  then have "last (slice_neg (Suc MAX_POINTS) es) = last es" by (rule last_slice_neg)
  moreover from False assms have "id' (last es) \<noteq> id' e"
    by (metis imageI last_in_set)
  ultimately show ?thesis
    using False by (simp add: last_id_def slice_neg_Nil_iff)
qed

lemma last_id_snoc: "last_id (slice_neg (Suc n) (xs @ [e])) = Some (id' e)"
  by (simp add: last_id_def slice_neg_Nil_iff last_slice_neg)

lemma setData_updater_fresh:
  assumes "id' e \<notin> id' ` set es"
  shows "setData_updater e (slice_neg (Suc MAX_POINTS) es) = slice_neg (Suc MAX_POINTS) (es @ [e])"
  using last_id_fresh[OF assms]
  by (simp add: setData_updater_def Let_def last_id_snoc slice_neg_snoc)

lemma fold_setData_updater:
  "distinct (map id' es) \<Longrightarrow> fold setData_updater es [] = slice_neg (Suc MAX_POINTS) es"
proof (induction es rule: rev_induct)
  case Nil
  then show ?case by (simp add: slice_neg_def)
next
  case (snoc e es)
  then have "id' e \<notin> id' ` set es" and "distinct (map id' es)" by auto
  with snoc.IH show ?case by (simp add: setData_updater_fresh)
qed

lemma setSites_updater_single:
  assumes "id' e \<notin> id' ` set es" and "DataPoint.siteId e = s"
  shows "setSites_updater e [\<lparr>Site.siteId = s, siteName = n, data = slice_neg (Suc MAX_POINTS) es\<rparr>]
         = [\<lparr>Site.siteId = s, siteName = n, data = slice_neg (Suc MAX_POINTS) (es @ [e])\<rparr>]"
  using last_id_fresh[OF assms(1)] assms(2)
  by (simp add: setSites_updater_def Let_def last_id_snoc slice_neg_snoc)

lemma fold_setSites_updater_single:
  assumes "distinct (map id' (e0 # es))"
    and "\<forall>e \<in> set es. DataPoint.siteId e = DataPoint.siteId e0"
  shows "fold setSites_updater (e0 # es) [] =
         [\<lparr>Site.siteId = DataPoint.siteId e0, siteName = DataPoint.siteName e0,
           data = slice_neg (Suc MAX_POINTS) (e0 # es)\<rparr>]"
  using assms
proof (induction es rule: rev_induct)
  case Nil
  then show ?case by (simp add: setSites_updater_def slice_neg_def)
next
  case (snoc e es)
  from snoc.prems have fresh: "id' e \<notin> id' ` set (e0 # es)"
    and site: "DataPoint.siteId e = DataPoint.siteId e0"
    and d: "distinct (map id' (e0 # es))"
    and s: "\<forall>e \<in> set es. DataPoint.siteId e = DataPoint.siteId e0"
    by auto
  have "fold setSites_updater (e0 # es @ [e]) [] =
        setSites_updater e (fold setSites_updater (e0 # es) [])"
    by simp
  also have "\<dots> = setSites_updater e
         [\<lparr>Site.siteId = DataPoint.siteId e0, siteName = DataPoint.siteName e0,
           data = slice_neg (Suc MAX_POINTS) (e0 # es)\<rparr>]"
    using snoc.IH[OF d s] by simp
  also have "\<dots> = [\<lparr>Site.siteId = DataPoint.siteId e0, siteName = DataPoint.siteName e0,
           data = slice_neg (Suc MAX_POINTS) ((e0 # es) @ [e])\<rparr>]"
    by (rule setSites_updater_single[OF fresh site])
  finally show ?case by simp
qed

lemma deliver_enriched:
  "deliver JSON_parse as st =
     \<lparr>data = fold setData_updater (enriched JSON_parse as) (Dashboard.data st),
      sites = fold setSites_updater (enriched JSON_parse as) (sites st)\<rparr>"
  by (induction as arbitrary: st) (simp_all add: onmessage_def Let_def split: option.splits)

lemma enriched_feed:
  "enriched example_parse (feed i j) =
     map (\<lambda>k. example_point\<lparr>timestamp := 1000 * int k, id' := of_nat k / 1000\<rparr>) [i..<j]"
proof -
  have "enriched example_parse
          (map (\<lambda>k. \<lparr>event_data = metric_payload, now = 1000 * int k, random = of_nat k / 1000\<rparr>) ks) =
        map (\<lambda>k. example_point\<lparr>timestamp := 1000 * int k, id' := of_nat k / 1000\<rparr>) ks" for ks
    by (induction ks)
      (simp_all add: example_parse_def enrich_def pong_payload_def metric_payload_def)
  then show ?thesis by (simp add: feed_def)
qed

lemma distinct_ids_feed: "distinct (map id' (enriched example_parse (feed i j)))"
  by (simp add: enriched_feed distinct_map inj_on_def comp_def)

lemma siteId_feed: "\<forall>e \<in> set (enriched example_parse (feed i j)). DataPoint.siteId e = ''site-1''"
  by (simp add: enriched_feed example_point_def)

lemma length_enriched_feed: "length (enriched example_parse (feed i j)) = j - i"
  by (simp add: enriched_feed)

lemma data_feed:
  "Dashboard.data (deliver example_parse (feed i j) initial) =
     slice_neg (Suc MAX_POINTS) (enriched example_parse (feed i j))"
  by (simp add: deliver_enriched initial_def fold_setData_updater distinct_ids_feed)

lemma feed_Cons: "i < j \<Longrightarrow> enriched example_parse (feed i j) =
   example_point\<lparr>timestamp := 1000 * int i, id' := of_nat i / 1000\<rparr> # enriched example_parse (feed (Suc i) j)"
  by (simp add: enriched_feed upt_conv_Cons)

lemma sites_feed:
  assumes "i < j"
  shows "sites (deliver example_parse (feed i j) initial) =
     [\<lparr>Site.siteId = ''site-1'', siteName = ''Site 1'',
       data = slice_neg (Suc MAX_POINTS) (enriched example_parse (feed i j))\<rparr>]"
proof -
  let ?e0 = "example_point\<lparr>timestamp := 1000 * int i, id' := of_nat i / 1000\<rparr>"
  let ?es = "enriched example_parse (feed (Suc i) j)"
  have eq: "enriched example_parse (feed i j) = ?e0 # ?es"
    using assms by (rule feed_Cons)
  have "distinct (map id' (?e0 # ?es))"
    using distinct_ids_feed[of i j] by (simp only: eq)
  moreover have "\<forall>e \<in> set ?es. DataPoint.siteId e = DataPoint.siteId ?e0"
    using siteId_feed[of "Suc i" j] by (simp add: example_point_def)
  ultimately have "fold setSites_updater (?e0 # ?es) [] =
     [\<lparr>Site.siteId = DataPoint.siteId ?e0, siteName = DataPoint.siteName ?e0,
       data = slice_neg (Suc MAX_POINTS) (?e0 # ?es)\<rparr>]"
    by (rule fold_setSites_updater_single)
  then show ?thesis
    by (simp add: deliver_enriched initial_def eq example_point_def)
qed

lemma slice_feed:
  "slice_neg (Suc MAX_POINTS) (enriched example_parse (feed 0 202)) = enriched example_parse (feed 1 202)"
  by (simp add: enriched_feed slice_neg_def MAX_POINTS_def drop_map)

lemma slice_feed':
  "slice_neg (Suc MAX_POINTS) (enriched example_parse (feed 1 202)) = enriched example_parse (feed 1 202)"
  by (simp add: slice_neg_def MAX_POINTS_def length_enriched_feed)

lemma findIndex_find:
  "findIndex P xs = None \<Longrightarrow> find P xs = None"
  "findIndex P xs = Some i \<Longrightarrow> find P xs = Some (xs ! i)"
  by (induction xs arbitrary: i) (auto split: if_splits)

lemma list_update_same_iff: "i < length xs \<Longrightarrow> xs[i := x] = xs \<longleftrightarrow> x = xs ! i"
  by (metis list_update_id nth_list_update_eq)

lemma set_slice_neg: "set (slice_neg n xs) \<subseteq> set xs"
  by (simp add: slice_neg_def set_drop_subset)

lemma sorted_slice_neg: "sorted (map f xs) \<Longrightarrow> sorted (map f (slice_neg n xs))"
  by (simp add: slice_neg_def sorted_wrt_drop flip: drop_map)

lemma timestamp_enriched:
  "e \<in> set (enriched JSON_parse as) \<Longrightarrow> \<exists>a \<in> set as. timestamp e = now a"
  by (induction as) (auto simp: enrich_def split: option.splits)

lemma sorted_enriched:
  "sorted (map now as) \<Longrightarrow> sorted (map timestamp (enriched JSON_parse as))"
proof (induction as)
  case Nil
  then show ?case by simp
next
  case (Cons a as)
  then have le: "\<forall>x \<in> set as. now a \<le> now x"
    and IH: "sorted (map timestamp (enriched JSON_parse as))"
    by simp_all
  show ?case
  proof (cases "JSON_parse (event_data a)")
    case None
    with IH show ?thesis by simp
  next
    case (Some newData)
    have "now a \<le> timestamp e" if "e \<in> set (enriched JSON_parse as)" for e
      using timestamp_enriched[OF that] le by auto
    with Some IH show ?thesis by (simp add: enrich_def)
  qed
qed

lemma setSites_updater_sorted:
  assumes "\<forall>s \<in> set prev. sorted (map timestamp (Site.data s)) \<and>
             (\<forall>x \<in> set (Site.data s). timestamp x \<le> timestamp e)"
  shows "\<forall>s \<in> set (setSites_updater e prev). sorted (map timestamp (Site.data s)) \<and>
             (\<forall>x \<in> set (Site.data s). timestamp x \<le> timestamp e)"
proof (cases "findIndex (\<lambda>s. Site.siteId s = DataPoint.siteId e) prev")
  case None
  with assms show ?thesis by (simp add: setSites_updater_def)
next
  case (Some i)
  then have i: "prev ! i \<in> set prev" by (simp add: findIndex_Some)
  let ?u = "(prev ! i)\<lparr>Site.data := slice_neg MAX_POINTS (Site.data (prev ! i)) @ [e]\<rparr>"
  from i assms have old: "sorted (map timestamp (Site.data (prev ! i)))"
    "\<forall>x \<in> set (Site.data (prev ! i)). timestamp x \<le> timestamp e"
    by blast+
  have u: "sorted (map timestamp (Site.data ?u)) \<and>
             (\<forall>x \<in> set (Site.data ?u). timestamp x \<le> timestamp e)"
    using old sorted_slice_neg[of timestamp "Site.data (prev ! i)" MAX_POINTS]
      set_slice_neg[of MAX_POINTS "Site.data (prev ! i)"]
    by (auto simp: sorted_append)
  have "sorted (map timestamp (Site.data s)) \<and>
             (\<forall>x \<in> set (Site.data s). timestamp x \<le> timestamp e)"
    if "s \<in> set (prev[i := ?u])" for s
  proof -
    from that have "s = ?u \<or> s \<in> set prev"
      using set_update_subset_insert by fastforce
    with u assms show ?thesis by blast
  qed
  with Some assms show ?thesis
    by (simp add: setSites_updater_def Let_def)
qed

lemma fold_setSites_updater_sorted:
  assumes "sorted (map timestamp es)"
    and "\<forall>s \<in> set ss. sorted (map timestamp (Site.data s)) \<and>
           (\<forall>x \<in> set (Site.data s). \<forall>e \<in> set es. timestamp x \<le> timestamp e)"
  shows "\<forall>s \<in> set (fold setSites_updater es ss). sorted (map timestamp (Site.data s))"
  using assms
proof (induction es arbitrary: ss)
  case Nil
  then show ?case by simp
next
  case (Cons e es)
  from Cons.prems(1) have le: "\<forall>e' \<in> set es. timestamp e \<le> timestamp e'"
    and sorted: "sorted (map timestamp es)"
    by simp_all
  from Cons.prems(2) have "\<forall>s \<in> set ss. sorted (map timestamp (Site.data s)) \<and>
             (\<forall>x \<in> set (Site.data s). timestamp x \<le> timestamp e)"
    by simp
  then have "\<forall>s \<in> set (setSites_updater e ss). sorted (map timestamp (Site.data s)) \<and>
             (\<forall>x \<in> set (Site.data s). timestamp x \<le> timestamp e)"
    by (rule setSites_updater_sorted)
  with le have "\<forall>s \<in> set (setSites_updater e ss). sorted (map timestamp (Site.data s)) \<and>
           (\<forall>x \<in> set (Site.data s). \<forall>e' \<in> set es. timestamp x \<le> timestamp e')"
    by (meson order_trans)
  with sorted have "\<forall>s \<in> set (fold setSites_updater es (setSites_updater e ss)).
      sorted (map timestamp (Site.data s))"
    by (rule Cons.IH)
  then show ?case by simp
qed

lemma upt_0_3: "[0..<3] = [0, 1, 2]"
  by code_simp

section \<open>The claims about the histories\<close>

text \<open>
  Claim C1: a site's retained window never holds more than 200 events. The constant
  \<open>MAX_POINTS\<close> is 200, but the updater keeps the last 200 events of the previous array
  and then appends: after 201 messages for one site the window holds 201 events.
\<close>

theorem window_exceeds_MAX_POINTS:
  "length (window (sites (deliver example_parse (feed 0 201) initial)) ''site-1'') = MAX_POINTS + 1"
  by (simp add: sites_feed window_def selectedSite_def slice_neg_def length_enriched_feed MAX_POINTS_def)

text \<open>
  Claim C2: an event evicted from a full window is folded into a baseline mean, and a
  count of the evicted events is kept. The state has no such component, and an evicted
  event leaves nothing behind: after 202 messages for one site the whole state is what
  it would be had the first message never arrived.
\<close>

theorem evicted_event_leaves_no_trace:
  "deliver example_parse (feed 0 202) initial = deliver example_parse (feed 1 202) initial"
proof -
  have "Dashboard.data (deliver example_parse (feed 0 202) initial) =
        Dashboard.data (deliver example_parse (feed 1 202) initial)"
    by (simp only: data_feed slice_feed slice_feed')
  moreover have "sites (deliver example_parse (feed 0 202) initial) =
        sites (deliver example_parse (feed 1 202) initial)"
    using sites_feed[of 0 202] sites_feed[of 1 202]
    by (simp only: slice_feed slice_feed')
  ultimately show ?thesis by simp
qed

text \<open>
  Claim C3: ingesting an event that the check on the tail's id cannot tell from the
  current tail is a no-op. As stated it fails below capacity: the message of
  \<open>feed 0 1\<close> delivered twice, with the same readings of the clock and of
  \<^verbatim>\<open>Math.random()\<close>, leaves two events in the window.
\<close>

theorem duplicate_delivery_counterexample:
  "length (window (sites (deliver example_parse (feed 0 1) initial)) ''site-1'') = 1 \<and>
   last_id (window (sites (deliver example_parse (feed 0 1) initial)) ''site-1'') =
     Some (id' (enrich (JSON None example_point) 0 0)) \<and>
   length (window (sites (deliver example_parse (feed 0 1 @ feed 0 1) initial)) ''site-1'') = 2"
  by (simp add: feed_def example_parse_def pong_payload_def metric_payload_def onmessage_def
      enrich_def initial_def setSites_updater_def setData_updater_def slice_neg_def
      MAX_POINTS_def last_id_def window_def selectedSite_def example_point_def Let_def)

text \<open>
  Claim C3, amended: the update is a no-op exactly when the history already holds
  \<open>MAX_POINTS + 1\<close> events and its tail carries the id of the incoming event; this
  holds of a site's window under \<^verbatim>\<open>setSites\<close> and of the global list under
  \<^verbatim>\<open>setData\<close>.
\<close>

theorem noop_iff_full_and_same_tail:
  "(setSites_updater e prev = prev \<longleftrightarrow>
      length (window prev (DataPoint.siteId e)) = MAX_POINTS + 1 \<and>
      last_id (window prev (DataPoint.siteId e)) = Some (id' e)) \<and>
   (setData_updater e d = d \<longleftrightarrow>
      length d = MAX_POINTS + 1 \<and> last_id d = Some (id' e))"
proof
  show "setSites_updater e prev = prev \<longleftrightarrow>
      length (window prev (DataPoint.siteId e)) = MAX_POINTS + 1 \<and>
      last_id (window prev (DataPoint.siteId e)) = Some (id' e)"
  proof (cases "findIndex (\<lambda>s. Site.siteId s = DataPoint.siteId e) prev")
    case None
    then have "window prev (DataPoint.siteId e) = []"
      by (simp add: window_def selectedSite_def findIndex_find)
    with None show ?thesis by (simp add: setSites_updater_def)
  next
    case (Some i)
    then have i: "i < length prev" by (simp add: findIndex_Some)
    let ?w = "Site.data (prev ! i)"
    from Some have w: "window prev (DataPoint.siteId e) = ?w"
      by (simp add: window_def selectedSite_def findIndex_find)
    have len: "length ?w = length (slice_neg MAX_POINTS ?w @ [e]) \<longleftrightarrow> length ?w = MAX_POINTS + 1"
      using length_slice_neg_MAX[of ?w] by (auto simp: MAX_POINTS_def)
    have neq: "(prev ! i)\<lparr>Site.data := slice_neg MAX_POINTS ?w @ [e]\<rparr> = prev ! i \<longleftrightarrow>
        slice_neg MAX_POINTS ?w @ [e] = ?w"
      by (cases "prev ! i") auto
    have "slice_neg MAX_POINTS ?w @ [e] = ?w \<Longrightarrow>
        length ?w = MAX_POINTS + 1 \<and> last_id ?w = Some (id' e)"
      by (metis len last_id_def last_snoc snoc_eq_iff_butlast)
    with Some i w len neq show ?thesis
      by (auto simp: setSites_updater_def Let_def last_id_def list_update_same_iff)
  qed
next
  have len: "length d = length (slice_neg MAX_POINTS d @ [e]) \<longleftrightarrow> length d = MAX_POINTS + 1"
    using length_slice_neg_MAX[of d] by (auto simp: MAX_POINTS_def)
  have "slice_neg MAX_POINTS d @ [e] = d \<Longrightarrow>
        length d = MAX_POINTS + 1 \<and> last_id d = Some (id' e)"
    by (metis len last_id_def last_snoc snoc_eq_iff_butlast)
  with len show "setData_updater e d = d \<longleftrightarrow>
      length d = MAX_POINTS + 1 \<and> last_id d = Some (id' e)"
    by (auto simp: setData_updater_def Let_def last_id_def)
qed

theorem noop_iff_full_and_same_tail_witness:
  "setSites_updater example_point
     [\<lparr>Site.siteId = ''site-1'', siteName = ''Site 1'', data = replicate 201 example_point\<rparr>] =
     [\<lparr>Site.siteId = ''site-1'', siteName = ''Site 1'', data = replicate 201 example_point\<rparr>] \<and>
   setData_updater example_point (replicate 201 example_point) = replicate 201 example_point"
  using noop_iff_full_and_same_tail[of example_point
      "[\<lparr>Site.siteId = ''site-1'', siteName = ''Site 1'', data = replicate 201 example_point\<rparr>]"
      "replicate 201 example_point"]
  by (simp add: window_def selectedSite_def last_id_def MAX_POINTS_def example_point_def)

text \<open>
  Claim C9: whatever messages arrive, the global list and every site's series hold at
  most \<open>MAX_POINTS + 1 = 201\<close> events, and 201 is reached.
\<close>

theorem histories_bounded:
  "length (Dashboard.data (deliver JSON_parse as initial)) \<le> MAX_POINTS + 1 \<and>
   (\<forall>s \<in> set (sites (deliver JSON_parse as initial)). length (Site.data s) \<le> MAX_POINTS + 1) \<and>
   length (Dashboard.data (deliver example_parse (feed 0 201) initial)) = MAX_POINTS + 1"
proof -
  have "bounded initial" by (simp add: bounded_def initial_def)
  then have "bounded (deliver JSON_parse as initial)" by (rule deliver_bounded)
  moreover have "length (Dashboard.data (deliver example_parse (feed 0 201) initial)) = MAX_POINTS + 1"
    by (simp add: data_feed slice_neg_def length_enriched_feed MAX_POINTS_def)
  ultimately show ?thesis by (simp add: bounded_def MAX_POINTS_def)
qed

theorem histories_bounded_witness:
  "sites (deliver example_parse (feed 0 2) initial) \<noteq> [] \<and>
   length (Site.data (hd (sites (deliver example_parse (feed 0 2) initial)))) \<le> MAX_POINTS + 1 \<and>
   length (Dashboard.data (deliver example_parse (feed 0 2) initial)) \<le> MAX_POINTS + 1"
proof -
  have ne: "sites (deliver example_parse (feed 0 2) initial) \<noteq> []"
    by (simp add: sites_feed)
  then have "hd (sites (deliver example_parse (feed 0 2) initial))
      \<in> set (sites (deliver example_parse (feed 0 2) initial))"
    by (rule hd_in_set)
  with ne show ?thesis
    using histories_bounded[of example_parse "feed 0 2"] by blast
qed

text \<open>
  Claim C10: the handler overwrites whatever timestamp and id a message carried with
  the readings of \<^verbatim>\<open>Date.now()\<close> and \<^verbatim>\<open>Math.random()\<close> taken on arrival, and so the
  timestamps in every site's series are non-decreasing in insertion order in every
  reachable state. As stated it fails: \<^verbatim>\<open>Date.now()\<close> is the wall clock, and when it is
  set back between two arrivals (here from 2000 to 1000) the series holds the later
  reading first.
\<close>

theorem clock_set_back_counterexample:
  "map (\<lambda>s. map timestamp (Site.data s))
     (sites (deliver example_parse
        [\<lparr>event_data = metric_payload, now = 2000, random = 1 / 4\<rparr>,
         \<lparr>event_data = metric_payload, now = 1000, random = 1 / 2\<rparr>] initial)) =
     [[2000, 1000]] \<and>
   \<not> sorted [2000, 1000 :: int]"
  by (simp add: example_parse_def pong_payload_def metric_payload_def onmessage_def
      enrich_def initial_def setSites_updater_def setData_updater_def slice_neg_def
      MAX_POINTS_def last_id_def example_point_def Let_def)

text \<open>
  Claim C10, amended: the handler overwrites whatever timestamp and id a message
  carried with the readings of \<^verbatim>\<open>Date.now()\<close> and \<^verbatim>\<open>Math.random()\<close> taken on arrival;
  so, whenever the clock readings are non-decreasing from one arrival to the next, the
  timestamps in every site's series are non-decreasing in insertion order, whatever
  the wire said.
\<close>

theorem receipt_timestamps_sorted:
  "timestamp (enrich newData t r) = t \<and> id' (enrich newData t r) = r \<and>
   (sorted (map now as) \<longrightarrow>
      (\<forall>s \<in> set (sites (deliver JSON_parse as initial)). sorted (map timestamp (Site.data s))))"
proof -
  have "\<forall>s \<in> set (sites (deliver JSON_parse as initial)). sorted (map timestamp (Site.data s))"
    if "sorted (map now as)"
  proof -
    from that have "sorted (map timestamp (enriched JSON_parse as))"
      by (rule sorted_enriched)
    then have "\<forall>s \<in> set (fold setSites_updater (enriched JSON_parse as) []).
        sorted (map timestamp (Site.data s))"
      by (rule fold_setSites_updater_sorted) simp
    then show ?thesis by (simp add: deliver_enriched initial_def)
  qed
  then show ?thesis by (simp add: enrich_def)
qed

theorem receipt_timestamps_sorted_witness:
  "sorted (map now (feed 0 3)) \<and>
   map (\<lambda>s. map timestamp (Site.data s)) (sites (deliver example_parse (feed 0 3) initial)) =
     [[0, 1000, 2000]] \<and>
   sorted [0, 1000, 2000 :: int] \<and>
   timestamp (enrich (JSON None example_point) 5 (1 / 2)) = 5"
proof -
  have s: "sorted (map now (feed 0 3))"
    by code_simp
  have v: "map (\<lambda>s. map timestamp (Site.data s)) (sites (deliver example_parse (feed 0 3) initial)) =
     [[0, 1000, 2000]]"
    by (simp add: sites_feed enriched_feed slice_neg_def MAX_POINTS_def example_point_def upt_0_3)
  from s v show ?thesis
    using receipt_timestamps_sorted[of "JSON None example_point" 5 "1 / 2" "feed 0 3" example_parse]
    by simp
qed

section \<open>Properties of the telemetry state\<close>

lemma includes_Memory:
  "string_includes High_Memory_Usage ''Memory''"
  "\<not> string_includes Low_FPS ''Memory''"
  "\<not> string_includes High_WebSocket_Latency ''Memory''"
  by (simp_all add: High_Memory_Usage_def Low_FPS_def High_WebSocket_Latency_def
      warning_sign_def siren_sign_def)

lemma includes_Latency:
  "string_includes High_WebSocket_Latency ''Latency''"
  "\<not> string_includes Low_FPS ''Latency''"
  "\<not> string_includes High_Memory_Usage ''Latency''"
  by (simp_all add: High_Memory_Usage_def Low_FPS_def High_WebSocket_Latency_def
      warning_sign_def siren_sign_def)

lemma alerts_distinct:
  "Low_FPS \<noteq> High_Memory_Usage" "Low_FPS \<noteq> High_WebSocket_Latency"
  "High_Memory_Usage \<noteq> High_WebSocket_Latency"
  by (simp_all add: High_Memory_Usage_def Low_FPS_def High_WebSocket_Latency_def
      warning_sign_def siren_sign_def)

text \<open>
  With a ping sent at any clock reading but \<open>0\<close>, the next pong yields the round trip;
  a pong with no ping pending changes nothing.
\<close>

lemma pong_measures_latency:
  assumes "t0 \<noteq> 0" and "JSON_parse raw = Some d" and "type_field d = Some ''pong''"
  shows "stats (onMessage JSON_parse t raw (ping OPEN t0 m)) = latency_updater (t - t0) (stats m)"
    and "latencyStart (onMessage JSON_parse t raw (ping OPEN t0 m)) = None"
  using assms by (simp_all add: onMessage_def ping_def truthy_def to_number_def)

lemma stale_pong_ignored:
  "latencyStart m = None \<Longrightarrow> JSON_parse raw = Some d \<Longrightarrow> onMessage JSON_parse t raw m = m"
  by (simp add: onMessage_def truthy_def)

text \<open>The hook keeps to its documented cap of 1000 entries.\<close>

lemma useWebSocket_bounded:
  "useWebSocket_onmessage JSON_parse raw prev = Inr d \<Longrightarrow> length d \<le> 1000"
  by (auto simp: useWebSocket_onmessage_def slice_neg_def split: option.splits)

section \<open>The claims about the telemetry state\<close>

text \<open>
  Claim C4: a ping sent at time 0 whose pong is seen at time 250 gives a latency of 250
  and raises the latency alert; a pong with no ping pending is a no-op. The listener
  tests \<^verbatim>\<open>latencyStart.current\<close> for truth, and the send time \<open>0\<close> is false: with
  \<^verbatim>\<open>Date.now()\<close> reading 0 at the ping, the pong at 250 is dropped, the statistics stay
  as they were and the ping stays pending. One millisecond later the same exchange
  measures 250 and raises the alert.
\<close>

theorem zero_ping_time_drops_pong:
  "stats (onMessage example_parse 250 pong_payload (ping OPEN 0 (initial_monitor 0))) = initial_stats \<and>
   latencyStart (onMessage example_parse 250 pong_payload (ping OPEN 0 (initial_monitor 0))) = Some 0 \<and>
   latencyMs (stats (onMessage example_parse 251 pong_payload (ping OPEN 1 (initial_monitor 0)))) = 250 \<and>
   alerts (stats (onMessage example_parse 251 pong_payload (ping OPEN 1 (initial_monitor 0)))) =
     [High_WebSocket_Latency]"
  by (simp add: onMessage_def ping_def initial_monitor_def initial_stats_def example_parse_def
      truthy_def to_number_def latency_updater_def)

text \<open>
  Claim C5: a write by one sampler leaves the other samplers' fields and their active
  alerts as they were. The frame tracker's write keeps the other fields but replaces the
  whole alert list: a memory alert raised at 500 MB is gone after the next frame
  report, while \<open>memoryUsedMB\<close> still reads 500.
\<close>

theorem fps_write_drops_other_alerts:
  "alerts (stats (memory_tick (Some \<lparr>usedJSHeapSize = 524288000, totalJSHeapSize = 629145600\<rparr>)
       (initial_monitor 0))) = [High_Memory_Usage] \<and>
   alerts (stats (loop 1000
       (memory_tick (Some \<lparr>usedJSHeapSize = 524288000, totalJSHeapSize = 629145600\<rparr>)
          (initial_monitor 0)))) = [Low_FPS] \<and>
   memoryUsedMB (stats (loop 1000
       (memory_tick (Some \<lparr>usedJSHeapSize = 524288000, totalJSHeapSize = 629145600\<rparr>)
          (initial_monitor 0)))) = 500"
  by (simp add: memory_tick_def loop_def initial_monitor_def initial_stats_def memory_updater_def
      fps_updater_def Math_round_def Let_def floor_eq_iff)

text \<open>
  Claim C6: each alert is present exactly when its field is beyond its threshold. As
  stated it fails for memory: the alert is decided on the unrounded megabytes and the
  field holds the rounded value, so at 400.25 MB the field reads 400 and the alert is
  present.
\<close>

theorem rounded_memory_counterexample:
  "memoryUsedMB (stats (memory_tick (Some \<lparr>usedJSHeapSize = 419692544, totalJSHeapSize = 629145600\<rparr>)
       (initial_monitor 0))) = 400 \<and>
   High_Memory_Usage \<in> set (alerts (stats (memory_tick
       (Some \<lparr>usedJSHeapSize = 419692544, totalJSHeapSize = 629145600\<rparr>) (initial_monitor 0))))"
  by (simp add: memory_tick_def initial_monitor_def initial_stats_def memory_updater_def
      Math_round_def Let_def floor_eq_iff)

text \<open>
  Claim C6, amended: each category is decided by the write of its own sampler, from
  the value that write reports: after a frame report \<open>Low FPS\<close> is present exactly
  when the reported rate is below 30, after a memory sample \<open>High Memory Usage\<close>
  exactly when the unrounded megabytes in use exceed 400, after a pong
  \<open>High WebSocket Latency\<close> exactly when the round trip exceeds 200; memory and latency
  writes leave \<open>Low FPS\<close> as it was; and the rates 29, 31, 25 give \<open>Low FPS\<close>
  present, absent, present.
\<close>

theorem alerts_follow_their_sampler:
  "(Low_FPS \<in> set (alerts (fps_updater n prev)) \<longleftrightarrow> n < 30) \<and>
   fps (fps_updater n prev) = n \<and>
   (High_Memory_Usage \<in> set (alerts (memory_updater used total' prev)) \<longleftrightarrow> used > 400) \<and>
   memoryUsedMB (memory_updater used total' prev) = Math_round used \<and>
   (High_WebSocket_Latency \<in> set (alerts (latency_updater latency prev)) \<longleftrightarrow> latency > 200) \<and>
   latencyMs (latency_updater latency prev) = latency \<and>
   (Low_FPS \<in> set (alerts (memory_updater used total' prev)) \<longleftrightarrow> Low_FPS \<in> set (alerts prev)) \<and>
   (Low_FPS \<in> set (alerts (latency_updater latency prev)) \<longleftrightarrow> Low_FPS \<in> set (alerts prev)) \<and>
   Low_FPS \<in> set (alerts (fps_updater 29 prev)) \<and>
   Low_FPS \<notin> set (alerts (fps_updater 31 (fps_updater 29 prev))) \<and>
   Low_FPS \<in> set (alerts (fps_updater 25 (fps_updater 31 (fps_updater 29 prev))))"
  by (auto simp: fps_updater_def memory_updater_def latency_updater_def includes_Memory
      includes_Latency alerts_distinct)

theorem alerts_follow_their_sampler_witness:
  "Low_FPS \<in> set (alerts (fps_updater 29 initial_stats)) \<and>
   High_Memory_Usage \<in> set (alerts (memory_updater 401 512 initial_stats)) \<and>
   High_WebSocket_Latency \<in> set (alerts (latency_updater 250 initial_stats)) \<and>
   Low_FPS \<notin> set (alerts (fps_updater 31 (fps_updater 29 initial_stats)))"
  using alerts_follow_their_sampler[of 29 initial_stats 401 512 250]
  by simp

text \<open>
  Claim C8: a payload that does not parse never crashes the consumer; it is dropped and
  reported, and later messages are processed. The listener of the monitor does so: it
  catches the exception and reports the payload. The handlers of the Dashboard and of
  \<^verbatim>\<open>useWebSocket\<close> call \<^verbatim>\<open>JSON.parse\<close> unguarded, and the exception leaves them.
\<close>

theorem malformed_payload_escapes_handler:
  assumes "JSON_parse raw = None"
  shows "onmessage JSON_parse t r raw st = Inl SyntaxError \<and>
         useWebSocket_onmessage JSON_parse raw d = Inl SyntaxError \<and>
         onMessage JSON_parse t' raw m = m\<lparr>console_error := console_error m @ [raw]\<rparr>"
  using assms by (simp add: onmessage_def useWebSocket_onmessage_def onMessage_def)

theorem malformed_payload_escapes_handler_witness:
  "example_parse ''{not json'' = None \<and>
   onmessage example_parse 0 0 ''{not json'' initial = Inl SyntaxError \<and>
   useWebSocket_onmessage example_parse ''{not json'' [] = Inl SyntaxError \<and>
   stats (onMessage example_parse 0 ''{not json'' (initial_monitor 0)) = initial_stats \<and>
   console_error (onMessage example_parse 0 ''{not json'' (initial_monitor 0)) = [''{not json'']"
proof -
  have h: "example_parse ''{not json'' = None"
    by (simp add: example_parse_def pong_payload_def metric_payload_def)
  show ?thesis
    using h malformed_payload_escapes_handler[of example_parse "''{not json''" 0 0 initial "[]" 0
        "initial_monitor 0", OF h]
    by (simp add: initial_monitor_def)
qed

section \<open>The claims about the connection\<close>

lemma fold_step_conserves:
  "length (timeouts (fold step es c)) + sockets (fold step es c) =
     length (timeouts c) + sockets c + count_list es Error"
proof (induction es arbitrary: c)
  case Nil
  then show ?case by simp
next
  case (Cons e es)
  have "length (timeouts (step e c)) + sockets (step e c) =
        length (timeouts c) + sockets c + (if e = Error then 1 else 0)"
    by (cases e) (simp_all add: onerror_def cleanup_def connectWebSocket_def
        split: list.splits option.splits)
  with Cons.IH[of "step e c"] show ?case by simp
qed

lemma fold_step_delays:
  "set (timeouts c) \<subseteq> {3000} \<Longrightarrow> set (timeouts (fold step es c)) \<subseteq> {3000}"
proof (induction es arbitrary: c)
  case Nil
  then show ?case by simp
next
  case (Cons e es)
  from Cons.prems have "set (timeouts (step e c)) \<subseteq> {3000}"
    by (cases e) (auto simp: onerror_def cleanup_def connectWebSocket_def
        split: list.splits option.splits)
  then show ?case using Cons.IH by simp
qed

lemma fold_step_errors:
  "timeouts (fold step (replicate n Error) c) = timeouts c @ replicate n 3000"
  by (induction n arbitrary: c) (simp_all add: onerror_def replicate_append_same)

text \<open>
  Claim C7: after an abnormal close exactly one reconnect is attempted, and two
  reconnect timers are never pending together. As stated it fails: two error events
  leave two timers pending, and a close event alone schedules no reconnect.
\<close>

theorem two_reconnect_timers_counterexample:
  "length (timeouts (run [Error, Error] mount)) = 2 \<and> timeouts (run [Close] mount) = []"
  by (simp add: run_def mount_def onerror_def connectWebSocket_def)

text \<open>
  Claim C7, amended: every error event schedules one reconnect after the fixed delay
  of 3000 ms, and every timeout that falls due makes one connection attempt, so the
  pending timers and the attempts made add up to one more than the error events seen;
  nothing limits the pending timers to one (\<open>n\<close> error events in a row leave \<open>n\<close>
  pending), and a close event schedules nothing.
\<close>

theorem every_error_schedules_a_reconnect:
  "length (timeouts (run es mount)) + sockets (run es mount) = 1 + count_list es Error \<and>
   set (timeouts (run es mount)) \<subseteq> {3000} \<and>
   timeouts (run (replicate n Error) mount) = replicate n 3000 \<and>
   step Close c = c"
proof -
  have "length (timeouts (run es mount)) + sockets (run es mount) = 1 + count_list es Error"
    unfolding run_def fold_step_conserves by (simp add: mount_def connectWebSocket_def)
  moreover have "set (timeouts (run es mount)) \<subseteq> {3000}"
    unfolding run_def by (rule fold_step_delays) (simp add: mount_def connectWebSocket_def)
  moreover have "timeouts (run (replicate n Error) mount) = replicate n 3000"
    unfolding run_def fold_step_errors by (simp add: mount_def connectWebSocket_def)
  ultimately show ?thesis by simp
qed

theorem every_error_schedules_a_reconnect_witness:
  "timeouts (run [Error, Timeout, Error, Error] mount) = [3000, 3000] \<and>
   sockets (run [Error, Timeout, Error, Error] mount) = 2 \<and>
   count_list [Error, Timeout, Error, Error] Error = 3"
  using every_error_schedules_a_reconnect[of "[Error, Timeout, Error, Error]" 0 mount]
  by (simp add: run_def mount_def onerror_def connectWebSocket_def)

end
